theory Spec2Isabelle
  imports Main
begin

section \<open>C library and GLib primitives used by the delegate\<close>

text \<open>
  C strings are byte lists without the terminating NUL; a well-formed C string holds no
  NUL byte. \<open>long\<close> is the 64-bit type of the LP64 platforms the plugin is built for,
  \<open>gint\<close> is 32 bits wide.
\<close>

definition cstring :: "string \<Rightarrow> bool" where
  "cstring s = (CHR 0x00 \<notin> set s)"

definition LONG_MAX :: int where
  "LONG_MAX = 2 ^ 63 - 1"

definition LONG_MIN :: int where
  "LONG_MIN = - (2 ^ 63)"

text \<open>Conversion of a \<open>long\<close> value to \<open>gint\<close>: the low 32 bits, read as two's complement.\<close>

definition long_to_gint :: "int \<Rightarrow> int" where
  "long_to_gint x = (x + 2 ^ 31) mod 2 ^ 32 - 2 ^ 31"

definition isspace :: "char \<Rightarrow> bool" where
  "isspace c = (c \<in> set [CHR '' '', CHR 0x09, CHR 0x0A, CHR 0x0B, CHR 0x0C, CHR 0x0D])"

definition isdigit :: "char \<Rightarrow> bool" where
  "isdigit c = ((48::nat) \<le> of_char c \<and> of_char c \<le> (57::nat))"

text \<open>The value of a run of decimal digits, most significant first.\<close>

fun digits_value :: "string \<Rightarrow> int \<Rightarrow> int" where
  "digits_value [] acc = acc"
| "digits_value (c # cs) acc = digits_value cs (acc * 10 + (int (of_char c) - 48))"

text \<open>
  \<open>strtol(nptr, &endptr, 10)\<close>: skips white space, reads an optional sign and the longest
  run of decimal digits, and saturates at \<open>LONG_MIN\<close> and \<open>LONG_MAX\<close>. The second component
  is the offset of \<open>endptr\<close> from \<open>nptr\<close>; it is 0 when no digit was read.
\<close>

definition strtol :: "string \<Rightarrow> int \<times> nat" where
  "strtol nptr =
     (let ws = takeWhile isspace nptr;
          s1 = dropWhile isspace nptr;
          neg = (case s1 of [] \<Rightarrow> False | c # _ \<Rightarrow> c = CHR ''-'');
          sg = (case s1 of [] \<Rightarrow> 0 | c # _ \<Rightarrow> if c = CHR ''-'' \<or> c = CHR ''+'' then 1 else 0);
          ds = takeWhile isdigit (drop sg s1);
          v = (if neg then - digits_value ds 0 else digits_value ds 0)
      in if ds = [] then (0, 0)
         else (max LONG_MIN (min LONG_MAX v), length ws + sg + length ds))"

text \<open>
  \<open>strcmp\<close>: the difference of the first pair of bytes that differ, the end of a string
  counting as the byte 0. Only the sign of the result is specified by C.
\<close>

fun strcmp :: "string \<Rightarrow> string \<Rightarrow> int" where
  "strcmp [] [] = 0"
| "strcmp [] (y # ys) = - int (of_char y)"
| "strcmp (x # xs) [] = int (of_char x)"
| "strcmp (x # xs) (y # ys) =
     (if x = y then strcmp xs ys else int (of_char x) - int (of_char y))"

text \<open>\<open>g_slist_find_custom\<close>: the first node whose data compares to 0 with the key; the
  node is given by its position in the list, \<open>None\<close> is the NULL result.\<close>

fun g_slist_find_custom :: "'a list \<Rightarrow> 'k \<Rightarrow> ('a \<Rightarrow> 'k \<Rightarrow> int) \<Rightarrow> nat option" where
  "g_slist_find_custom [] k f = None"
| "g_slist_find_custom (x # xs) k f =
     (if f x k = 0 then Some 0
      else (case g_slist_find_custom xs k f of None \<Rightarrow> None | Some i \<Rightarrow> Some (Suc i)))"

text \<open>\<open>g_slist_insert_sorted\<close>: the new element goes before the first element it does
  not compare greater than, or to the end.\<close>

fun g_slist_insert_sorted :: "'a list \<Rightarrow> 'a \<Rightarrow> ('a \<Rightarrow> 'a \<Rightarrow> int) \<Rightarrow> 'a list" where
  "g_slist_insert_sorted [] d f = [d]"
| "g_slist_insert_sorted (x # xs) d f =
     (if f d x > 0 then x # g_slist_insert_sorted xs d f else d # x # xs)"

text \<open>\<open>g_slist_sort\<close>: a merge sort; the first half holds \<open>n div 2\<close> of the \<open>n\<close> elements,
  and the merge takes from the first list unless its head compares greater.\<close>

fun g_slist_sort_merge :: "'a list \<Rightarrow> 'a list \<Rightarrow> ('a \<Rightarrow> 'a \<Rightarrow> int) \<Rightarrow> 'a list" where
  "g_slist_sort_merge [] l2 f = l2"
| "g_slist_sort_merge (x # xs) [] f = x # xs"
| "g_slist_sort_merge (x # xs) (y # ys) f =
     (if f x y \<le> 0 then x # g_slist_sort_merge xs (y # ys) f
      else y # g_slist_sort_merge (x # xs) ys f)"

function g_slist_sort :: "'a list \<Rightarrow> ('a \<Rightarrow> 'a \<Rightarrow> int) \<Rightarrow> 'a list" where
  "g_slist_sort [] f = []"
| "g_slist_sort [x] f = [x]"
| "g_slist_sort (x # y # zs) f =
     g_slist_sort_merge
       (g_slist_sort (take (length (x # y # zs) div 2) (x # y # zs)) f)
       (g_slist_sort (drop (length (x # y # zs) div 2) (x # y # zs)) f) f"
  by pat_completeness auto
termination
  by (relation "measure (\<lambda>(xs, f). length xs)") auto

text \<open>\<open>g_slist_remove\<close> unlinks the node that holds the given pointer; with the node
  given by its position this is the removal of that position.\<close>

definition g_slist_remove_nth :: "'a list \<Rightarrow> nat \<Rightarrow> 'a list" where
  "g_slist_remove_nth xs i = take i xs @ drop (Suc i) xs"

section \<open>Ordering of workspace names\<close>

definition ws_name_to_number :: "string \<Rightarrow> int" where
  "ws_name_to_number name =
     (let (parsed_num, endptr) = strtol name
      in if parsed_num = LONG_MIN \<or> parsed_num = LONG_MAX \<or> parsed_num < 0 \<or> endptr = 0
         then - 1 else parsed_num)"

definition workspace_name_cmp :: "string \<Rightarrow> string \<Rightarrow> int" where
  "workspace_name_cmp a b =
     (let na = ws_name_to_number a; nb = ws_name_to_number b
      in if na = - 1 \<or> nb = - 1
         then (if na = - 1 \<and> nb = - 1 then strcmp b a
               else (if na = - 1 then - 1 else 1))
         else long_to_gint (nb - na))"

section \<open>Workspaces and the delegate structure\<close>

record i3workspace =
  num :: int
  name :: string
  focused :: bool
  urgent :: bool
  "output" :: string

text \<open>An entry of the list that \<open>i3ipc_connection_get_workspaces\<close> returns.\<close>

record i3ipcWorkspaceReply =
  reply_num :: int
  reply_name :: string
  reply_focused :: bool
  reply_urgent :: bool
  reply_output :: string

type_synonym gpointer = nat

text \<open>A callback slot: the function pointer (\<open>None\<close> is NULL) and the user data.\<close>

record i3wmCallback =
  cb_function :: "nat option"
  cb_data :: gpointer

text \<open>One call of a registered function: the function, the workspace as it is at the call,
  and the data passed.\<close>

type_synonym callback_call = "nat \<times> i3workspace \<times> gpointer"

text \<open>
  The delegate structure. \<open>calls\<close> is not a field of the C structure: it records, in
  order, the calls that \<open>invoke_callback\<close> makes.
\<close>

record i3windowManager =
  wlist :: "i3workspace list"
  on_workspace_created :: i3wmCallback
  on_workspace_destroyed :: i3wmCallback
  on_workspace_blurred :: i3wmCallback
  on_workspace_focused :: i3wmCallback
  on_workspace_urgent :: i3wmCallback
  on_workspace_renamed :: i3wmCallback
  calls :: "callback_call list"

text \<open>Undefined behaviour of the C code stops the modelled handler with a fault.\<close>

datatype fault = NullDereference | UninitializedRead

type_synonym GError = string

text \<open>
  The answer of the window manager to a workspace query is an argument of the functions
  that ask for it: \<open>Inl\<close> an error, \<open>Inr\<close> the list. \<open>i3ipc_connection_get_workspaces\<close>
  returns NULL (the empty list) on an error and reports the error through its \<open>err\<close>
  argument.
\<close>

definition i3ipc_connection_get_workspaces ::
  "GError + i3ipcWorkspaceReply list \<Rightarrow> i3ipcWorkspaceReply list \<times> GError option" where
  "i3ipc_connection_get_workspaces answer =
     (case answer of Inl e \<Rightarrow> ([], Some e) | Inr l \<Rightarrow> (l, None))"

definition i3wm_workspace_cmp :: "i3workspace \<Rightarrow> i3workspace \<Rightarrow> int" where
  "i3wm_workspace_cmp a b = workspace_name_cmp (name a) (name b)"

definition workspace_reply_str_cmp :: "i3ipcWorkspaceReply \<Rightarrow> string \<Rightarrow> int" where
  "workspace_reply_str_cmp w s = workspace_name_cmp (reply_name w) s"

definition workspace_str_cmp :: "i3workspace \<Rightarrow> string \<Rightarrow> int" where
  "workspace_str_cmp w s = workspace_name_cmp (name w) s"

definition create_workspace :: "i3ipcWorkspaceReply \<Rightarrow> i3workspace" where
  "create_workspace wreply =
     \<lparr> num = reply_num wreply, name = reply_name wreply, focused = reply_focused wreply,
       urgent = reply_urgent wreply, output = reply_output wreply \<rparr>"

subsection \<open>Registration and invocation of callbacks\<close>

definition i3wm_set_on_workspace_created ::
  "i3windowManager \<Rightarrow> nat option \<Rightarrow> gpointer \<Rightarrow> i3windowManager" where
  "i3wm_set_on_workspace_created i3wm callback data =
     i3wm\<lparr> on_workspace_created := \<lparr> cb_function = callback, cb_data = data \<rparr> \<rparr>"

definition i3wm_set_on_workspace_destroyed ::
  "i3windowManager \<Rightarrow> nat option \<Rightarrow> gpointer \<Rightarrow> i3windowManager" where
  "i3wm_set_on_workspace_destroyed i3wm callback data =
     i3wm\<lparr> on_workspace_destroyed := \<lparr> cb_function = callback, cb_data = data \<rparr> \<rparr>"

definition i3wm_set_on_workspace_blurred ::
  "i3windowManager \<Rightarrow> nat option \<Rightarrow> gpointer \<Rightarrow> i3windowManager" where
  "i3wm_set_on_workspace_blurred i3wm callback data =
     i3wm\<lparr> on_workspace_blurred := (on_workspace_blurred i3wm)\<lparr> cb_function := callback \<rparr>,
           on_workspace_focused := (on_workspace_focused i3wm)\<lparr> cb_data := data \<rparr> \<rparr>"


definition i3wm_set_on_workspace_urgent ::
  "i3windowManager \<Rightarrow> nat option \<Rightarrow> gpointer \<Rightarrow> i3windowManager" where
  "i3wm_set_on_workspace_urgent i3wm callback data =
     i3wm\<lparr> on_workspace_urgent := \<lparr> cb_function = callback, cb_data = data \<rparr> \<rparr>"

definition i3wm_set_on_workspace_renamed ::
  "i3windowManager \<Rightarrow> nat option \<Rightarrow> gpointer \<Rightarrow> i3windowManager" where
  "i3wm_set_on_workspace_renamed i3wm callback data =
     i3wm\<lparr> on_workspace_renamed := \<lparr> cb_function = callback, cb_data = data \<rparr> \<rparr>"

definition invoke_callback ::
  "i3wmCallback \<Rightarrow> i3workspace \<Rightarrow> i3windowManager \<Rightarrow> i3windowManager" where
  "invoke_callback callback workspace i3wm =
     (case cb_function callback of
        None \<Rightarrow> i3wm
      | Some f \<Rightarrow> i3wm\<lparr> calls := calls i3wm @ [(f, workspace, cb_data callback)] \<rparr>)"

subsection \<open>Construction\<close>

text \<open>The structure as \<open>i3wm_construct\<close> has it before \<open>init_workspaces\<close>: \<open>g_new0\<close> zeroes
  the memory, so every data pointer is NULL (0).\<close>

definition i3wm_new :: i3windowManager where
  "i3wm_new =
     \<lparr> wlist = [],
       on_workspace_created = \<lparr> cb_function = None, cb_data = 0 \<rparr>,
       on_workspace_destroyed = \<lparr> cb_function = None, cb_data = 0 \<rparr>,
       on_workspace_blurred = \<lparr> cb_function = None, cb_data = 0 \<rparr>,
       on_workspace_focused = \<lparr> cb_function = None, cb_data = 0 \<rparr>,
       on_workspace_urgent = \<lparr> cb_function = None, cb_data = 0 \<rparr>,
       on_workspace_renamed = \<lparr> cb_function = None, cb_data = 0 \<rparr>,
       calls = [] \<rparr>"

definition init_workspaces ::
  "i3windowManager \<Rightarrow> GError + i3ipcWorkspaceReply list \<Rightarrow> GError + i3windowManager" where
  "init_workspaces i3wm answer =
     (let (wl, get_err) = i3ipc_connection_get_workspaces answer
      in case get_err of
           Some e \<Rightarrow> Inl e
         | None \<Rightarrow>
             (let prepended = foldl (\<lambda>acc wreply. create_workspace wreply # acc) (wlist i3wm) wl
              in Inr (i3wm\<lparr> wlist := g_slist_sort (rev prepended) i3wm_workspace_cmp \<rparr>)))"

text \<open>\<open>i3wm_construct\<close>, given the outcome of opening the connection, of the workspace
  query and of the subscription.\<close>

definition i3wm_construct ::
  "GError option \<Rightarrow> GError + i3ipcWorkspaceReply list \<Rightarrow> GError option
     \<Rightarrow> GError + i3windowManager" where
  "i3wm_construct connect_err answer subscribe_err =
     (case connect_err of
        Some e \<Rightarrow> Inl e
      | None \<Rightarrow>
          (case init_workspaces i3wm_new answer of
             Inl e \<Rightarrow> Inl e
           | Inr i3wm \<Rightarrow> (case subscribe_err of Some e \<Rightarrow> Inl e | None \<Rightarrow> Inr i3wm)))"

subsection \<open>Event handlers\<close>

definition on_focus_workspace ::
  "i3windowManager \<Rightarrow> string \<Rightarrow> string \<Rightarrow> fault + i3windowManager" where
  "on_focus_workspace i3wm focusedName blurredName =
     (let i3wm1 =
        (case g_slist_find_custom (wlist i3wm) blurredName workspace_str_cmp of
           None \<Rightarrow> i3wm
         | Some i \<Rightarrow>
             (let wblurred = (wlist i3wm ! i)\<lparr> focused := False \<rparr>;
                  s = i3wm\<lparr> wlist := (wlist i3wm)[i := wblurred] \<rparr>
              in invoke_callback (on_workspace_blurred s) wblurred s))
      in case g_slist_find_custom (wlist i3wm1) focusedName workspace_str_cmp of
           None \<Rightarrow> Inl NullDereference
         | Some j \<Rightarrow>
             (let wfocused = (wlist i3wm1 ! j)\<lparr> focused := True \<rparr>;
                  s = i3wm1\<lparr> wlist := (wlist i3wm1)[j := wfocused] \<rparr>
              in Inr (invoke_callback (on_workspace_focused s) wfocused s)))"

text \<open>The search loop of \<open>on_init_workspace\<close>; the third argument is \<open>wreply\<close>, \<open>None\<close>
  while it is not assigned. The result is \<open>wreply\<close> after the loop.\<close>

fun init_scan ::
  "i3workspace list \<Rightarrow> i3ipcWorkspaceReply list \<Rightarrow> i3ipcWorkspaceReply option
     \<Rightarrow> i3ipcWorkspaceReply option" where
  "init_scan ours [] wreply = wreply"
| "init_scan ours (r # rs) wreply =
     (if g_slist_find_custom ours (reply_name r) workspace_str_cmp = None then Some r
      else init_scan ours rs (Some r))"

definition on_init_workspace ::
  "i3windowManager \<Rightarrow> GError + i3ipcWorkspaceReply list \<Rightarrow> fault + i3windowManager" where
  "on_init_workspace i3wm answer =
     (let wl = fst (i3ipc_connection_get_workspaces answer)
      in case init_scan (wlist i3wm) wl None of
           None \<Rightarrow> Inl UninitializedRead
         | Some wreply \<Rightarrow>
             (let workspace = create_workspace wreply;
                  s = i3wm\<lparr> wlist := g_slist_insert_sorted (wlist i3wm) workspace i3wm_workspace_cmp \<rparr>
              in Inr (invoke_callback (on_workspace_created s) workspace s)))"

text \<open>The search loop of \<open>on_empty_workspace\<close> over the remaining nodes of the delegate's
  list; \<open>i\<close> is the position of the first of them, the last argument is \<open>workspace\<close> (the
  position of the node it points to), \<open>None\<close> while it is not assigned.\<close>

fun empty_scan ::
  "i3ipcWorkspaceReply list \<Rightarrow> i3workspace list \<Rightarrow> nat \<Rightarrow> nat option \<Rightarrow> nat option" where
  "empty_scan wl [] i workspace = workspace"
| "empty_scan wl (w # ws) i workspace =
     (if g_slist_find_custom wl (name w) workspace_reply_str_cmp = None then Some i
      else empty_scan wl ws (Suc i) (Some i))"

definition on_empty_workspace ::
  "i3windowManager \<Rightarrow> GError + i3ipcWorkspaceReply list \<Rightarrow> fault + i3windowManager" where
  "on_empty_workspace i3wm answer =
     (let wl = fst (i3ipc_connection_get_workspaces answer)
      in case empty_scan wl (wlist i3wm) 0 None of
           None \<Rightarrow> Inl UninitializedRead
         | Some i \<Rightarrow>
             (let workspace = wlist i3wm ! i;
                  s = i3wm\<lparr> wlist := g_slist_remove_nth (wlist i3wm) i \<rparr>
              in Inr (invoke_callback (on_workspace_destroyed s) workspace s)))"

text \<open>The search loop of \<open>on_urgent_workspace\<close>; the last argument holds \<open>wour\<close> (as its
  position) and \<open>wtheir\<close>, \<open>None\<close> while they are not assigned. The data of a NULL search
  result is read without a check.\<close>

fun urgent_scan ::
  "i3workspace list \<Rightarrow> i3ipcWorkspaceReply list \<Rightarrow> (nat \<times> i3ipcWorkspaceReply) option
     \<Rightarrow> fault + (nat \<times> i3ipcWorkspaceReply) option" where
  "urgent_scan ours [] found = Inr found"
| "urgent_scan ours (wtheir # rs) found =
     (case g_slist_find_custom ours (reply_name wtheir) workspace_str_cmp of
        None \<Rightarrow> Inl NullDereference
      | Some i \<Rightarrow>
          if reply_urgent wtheir \<noteq> urgent (ours ! i) then Inr (Some (i, wtheir))
          else urgent_scan ours rs (Some (i, wtheir)))"

definition on_urgent_workspace ::
  "i3windowManager \<Rightarrow> GError + i3ipcWorkspaceReply list \<Rightarrow> fault + i3windowManager" where
  "on_urgent_workspace i3wm answer =
     (let wl = fst (i3ipc_connection_get_workspaces answer)
      in case urgent_scan (wlist i3wm) wl None of
           Inl f \<Rightarrow> Inl f
         | Inr None \<Rightarrow> Inl UninitializedRead
         | Inr (Some (i, wtheir)) \<Rightarrow>
             (let wour = (wlist i3wm ! i)\<lparr> urgent := reply_urgent wtheir \<rparr>;
                  s = i3wm\<lparr> wlist := (wlist i3wm)[i := wour] \<rparr>
              in Inr (invoke_callback (on_workspace_urgent s) wour s)))"

definition on_rename_workspace ::
  "i3windowManager \<Rightarrow> GError + i3ipcWorkspaceReply list \<Rightarrow> GError + i3ipcWorkspaceReply list
     \<Rightarrow> fault + i3windowManager" where
  "on_rename_workspace i3wm answer1 answer2 =
     (case on_init_workspace i3wm answer1 of
        Inl f \<Rightarrow> Inl f
      | Inr s \<Rightarrow> on_empty_workspace s answer2)"

text \<open>The search loop of \<open>on_move_workspace\<close>, as that of \<open>on_urgent_workspace\<close> with the
  outputs compared by \<open>g_strcmp0\<close> (\<open>strcmp\<close> on strings that are not NULL).\<close>

fun move_scan ::
  "i3workspace list \<Rightarrow> i3ipcWorkspaceReply list \<Rightarrow> (nat \<times> i3ipcWorkspaceReply) option
     \<Rightarrow> fault + (nat \<times> i3ipcWorkspaceReply) option" where
  "move_scan ours [] found = Inr found"
| "move_scan ours (wtheir # rs) found =
     (case g_slist_find_custom ours (reply_name wtheir) workspace_str_cmp of
        None \<Rightarrow> Inl NullDereference
      | Some i \<Rightarrow>
          if strcmp (reply_output wtheir) (output (ours ! i)) \<noteq> 0 then Inr (Some (i, wtheir))
          else move_scan ours rs (Some (i, wtheir)))"

definition on_move_workspace ::
  "i3windowManager \<Rightarrow> GError + i3ipcWorkspaceReply list \<Rightarrow> fault + i3windowManager" where
  "on_move_workspace i3wm answer =
     (let wl = fst (i3ipc_connection_get_workspaces answer)
      in case move_scan (wlist i3wm) wl None of
           Inl f \<Rightarrow> Inl f
         | Inr None \<Rightarrow> Inl UninitializedRead
         | Inr (Some (i, wtheir)) \<Rightarrow>
             (let wour = wlist i3wm ! i;
                  s1 = i3wm\<lparr> wlist := g_slist_remove_nth (wlist i3wm) i \<rparr>;
                  s2 = invoke_callback (on_workspace_destroyed s1) wour s1;
                  wnew = create_workspace wtheir;
                  s3 = s2\<lparr> wlist := g_slist_insert_sorted (wlist s2) wnew i3wm_workspace_cmp \<rparr>
              in Inr (invoke_callback (on_workspace_created s3) wnew s3)))"

text \<open>The list is sorted under a comparison function when no element compares greater
  than a later one.\<close>

definition sorted_under :: "('a \<Rightarrow> 'a \<Rightarrow> int) \<Rightarrow> 'a list \<Rightarrow> bool" where
  "sorted_under f xs = sorted_wrt (\<lambda>a b. f a b \<le> 0) xs"

text \<open>
  A name whose number, if it has one, is below \<open>2 ^ 31\<close>, so that the difference of two such
  numbers is a \<open>gint\<close>; and a list of workspaces with such names that is sorted.
\<close>

definition small_name :: "string \<Rightarrow> bool" where
  "small_name a = (cstring a \<and> ws_name_to_number a < 2 ^ 31)"

definition list_ok :: "i3workspace list \<Rightarrow> bool" where
  "list_ok ws = (list_all (\<lambda>w. small_name (name w)) ws \<and> sorted_under i3wm_workspace_cmp ws)"

text \<open>Example data: a workspace and a query entry with both flags unset.\<close>

abbreviation a_workspace :: "int \<Rightarrow> string \<Rightarrow> string \<Rightarrow> i3workspace" where
  "a_workspace n nm out \<equiv>
     \<lparr> num = n, name = nm, focused = False, urgent = False, output = out \<rparr>"

abbreviation a_reply :: "int \<Rightarrow> string \<Rightarrow> string \<Rightarrow> i3ipcWorkspaceReply" where
  "a_reply n nm out \<equiv>
     \<lparr> reply_num = n, reply_name = nm, reply_focused = False, reply_urgent = False,
       reply_output = out \<rparr>"

section \<open>Facts about the primitives\<close>

lemmas name_eval = workspace_name_cmp_def ws_name_to_number_def strtol_def isspace_def
  isdigit_def LONG_MAX_def LONG_MIN_def long_to_gint_def

lemmas handler_eval = i3ipc_connection_get_workspaces_def invoke_callback_def
  workspace_str_cmp_def workspace_reply_str_cmp_def i3wm_workspace_cmp_def
  create_workspace_def g_slist_remove_nth_def i3wm_new_def Let_def

lemma of_char_zero: "(of_char c :: nat) = 0 \<Longrightarrow> c = CHR 0x00"
proof -
  assume "(of_char c :: nat) = 0"
  then have "(of_char c :: nat) = of_char (CHR 0x00)" by simp
  then show ?thesis by (simp only: of_char_eq_iff)
qed

lemma strcmp_refl: "strcmp a a = 0"
  by (induction a) auto

lemma strcmp_zero: "cstring a \<Longrightarrow> cstring b \<Longrightarrow> strcmp a b = 0 \<Longrightarrow> a = b"
proof (induction a b rule: strcmp.induct)
  case (2 y ys)
  then show ?case by (auto simp: cstring_def dest: of_char_zero)
next
  case (3 x xs)
  then show ?case by (auto simp: cstring_def dest: of_char_zero)
next
  case (4 x xs y ys)
  then show ?case by (auto simp: cstring_def split: if_splits)
qed simp

lemma workspace_name_cmp_refl: "workspace_name_cmp a a = 0"
  by (simp add: workspace_name_cmp_def Let_def strcmp_refl long_to_gint_def)

lemma long_to_gint_small: "- (2 ^ 31) \<le> x \<Longrightarrow> x < 2 ^ 31 \<Longrightarrow> long_to_gint x = x"
  by (simp add: long_to_gint_def)

lemma ws_name_to_number_range: "ws_name_to_number a = - 1 \<or> 0 \<le> ws_name_to_number a"
  by (auto simp: ws_name_to_number_def Let_def split: prod.splits)

lemma g_slist_find_custom_Some:
  "g_slist_find_custom xs k f = Some i \<Longrightarrow>
     i < length xs \<and> f (xs ! i) k = 0 \<and> (\<forall>j<i. f (xs ! j) k \<noteq> 0)"
proof (induction xs arbitrary: i)
  case Nil
  then show ?case by simp
next
  case (Cons x xs)
  show ?case
  proof (cases "f x k = 0")
    case True
    with Cons.prems show ?thesis by simp
  next
    case False
    with Cons.prems obtain i' where i': "g_slist_find_custom xs k f = Some i'" "i = Suc i'"
      by (auto split: option.splits)
    from Cons.IH [OF i'(1)] False i'(2) show ?thesis
      by (auto simp: less_Suc_eq_0_disj)
  qed
qed

lemma g_slist_find_custom_None:
  "g_slist_find_custom xs k f = None \<longleftrightarrow> (\<forall>x\<in>set xs. f x k \<noteq> 0)"
  by (induction xs) (auto split: option.splits)

lemma sort_example:
  "g_slist_sort [''1'', ''2'', ''10'', ''a'', ''b''] workspace_name_cmp
     = [''b'', ''a'', ''10'', ''2'', ''1'']"
  by (simp add: name_eval)

section \<open>The ordering of workspace names\<close>

text \<open>
  C1, as the code has it. \<open>g_slist_sort\<close> and \<open>g_slist_insert_sorted\<close> put \<open>a\<close> before \<open>b\<close>
  when the comparison of \<open>a\<close> with \<open>b\<close> is not positive. For a name that parses as a number
  and a name that does not, \<open>workspace_name_cmp\<close> returns 1 with the numeric name first and
  -1 with the named one first: the named workspace is ordered before the numeric one.
  Sorting "1", "2", "10", "a", "b" gives "b", "a", "10", "2", "1".
\<close>

theorem workspace_name_cmp_mixed:
  assumes "ws_name_to_number a \<noteq> - 1" and "ws_name_to_number b = - 1"
  shows "workspace_name_cmp a b = 1 \<and> workspace_name_cmp b a = - 1 \<and>
    g_slist_sort [''1'', ''2'', ''10'', ''a'', ''b''] workspace_name_cmp
      = [''b'', ''a'', ''10'', ''2'', ''1'']"
  using assms sort_example by (simp add: workspace_name_cmp_def)

theorem workspace_name_cmp_mixed_witness:
  "ws_name_to_number ''1'' \<noteq> - 1 \<and> ws_name_to_number ''a'' = - 1 \<and>
   workspace_name_cmp ''1'' ''a'' = 1 \<and> workspace_name_cmp ''a'' ''1'' = - 1"
proof -
  have n: "ws_name_to_number ''1'' \<noteq> - 1" by (simp add: name_eval)
  have m: "ws_name_to_number ''a'' = - 1" by (simp add: name_eval)
  from workspace_name_cmp_mixed [OF n m] n m show ?thesis by simp
qed

text \<open>
  C1 as stated fails: "1" is numeric and "a" is named, the comparison of "1" with "a" is
  positive (so "a" goes first), and the sorted list is not "10", "2", "1", "b", "a".
\<close>

theorem numeric_before_named_counterexample:
  "ws_name_to_number ''1'' \<noteq> - 1 \<and> ws_name_to_number ''a'' = - 1 \<and>
   workspace_name_cmp ''1'' ''a'' > 0 \<and> workspace_name_cmp ''a'' ''1'' < 0 \<and>
   g_slist_sort [''1'', ''2'', ''10'', ''a'', ''b''] workspace_name_cmp
      \<noteq> [''10'', ''2'', ''1'', ''b'', ''a'']"
  by (simp add: name_eval)

text \<open>
  C3, as the code has it. For two names that are well-formed C strings with numbers below
  \<open>2 ^ 31\<close>, the comparison is 0 exactly when the strings are equal or both names parse to
  the same number, whatever follows the digits ("1" and "1a"). A lookup by
  \<open>g_slist_find_custom\<close> with \<open>workspace_str_cmp\<close> therefore returns only a workspace
  whose name is the queried string or parses to the same number as it.
\<close>

theorem workspace_name_cmp_zero:
  assumes "small_name a" and "small_name b"
  shows "(workspace_name_cmp a b = 0 \<longleftrightarrow>
            a = b \<or> (ws_name_to_number a \<noteq> - 1 \<and> ws_name_to_number a = ws_name_to_number b)) \<and>
         (g_slist_find_custom wl b workspace_str_cmp = Some i \<and> name (wl ! i) = a \<longrightarrow>
            a = b \<or> (ws_name_to_number a \<noteq> - 1 \<and> ws_name_to_number a = ws_name_to_number b))"
proof -
  from assms have cs: "cstring a" "cstring b"
    and lt: "ws_name_to_number a < 2 ^ 31" "ws_name_to_number b < 2 ^ 31"
    by (simp_all add: small_name_def)
  have narrow: "long_to_gint (ws_name_to_number b - ws_name_to_number a)
        = ws_name_to_number b - ws_name_to_number a"
    if "ws_name_to_number a \<noteq> - 1" "ws_name_to_number b \<noteq> - 1"
    using that lt ws_name_to_number_range [of a] ws_name_to_number_range [of b]
    by (intro long_to_gint_small) auto
  have zero: "workspace_name_cmp a b = 0 \<longleftrightarrow>
      a = b \<or> (ws_name_to_number a \<noteq> - 1 \<and> ws_name_to_number a = ws_name_to_number b)"
  proof (cases "ws_name_to_number a = - 1")
    case na: True
    show ?thesis
    proof (cases "ws_name_to_number b = - 1")
      case True
      with na have c: "workspace_name_cmp a b = strcmp b a"
        by (simp add: workspace_name_cmp_def)
      have "strcmp b a = 0 \<longleftrightarrow> a = b"
        using strcmp_zero [OF cs(2) cs(1)] strcmp_refl [of a] by blast
      with na c show ?thesis by simp
    next
      case False
      with na have "workspace_name_cmp a b = - 1" by (simp add: workspace_name_cmp_def)
      moreover from na False have "a \<noteq> b" by blast
      ultimately show ?thesis using na by simp
    qed
  next
    case na: False
    show ?thesis
    proof (cases "ws_name_to_number b = - 1")
      case True
      with na have "workspace_name_cmp a b = 1" by (simp add: workspace_name_cmp_def)
      moreover from na True have "a \<noteq> b" by blast
      ultimately show ?thesis using na True by simp
    next
      case False
      with na have "workspace_name_cmp a b = ws_name_to_number b - ws_name_to_number a"
        by (simp add: workspace_name_cmp_def narrow)
      with na show ?thesis by auto
    qed
  qed
  have lookup: "g_slist_find_custom wl b workspace_str_cmp = Some i \<Longrightarrow> name (wl ! i) = a \<Longrightarrow>
      workspace_name_cmp a b = 0"
    by (auto dest: g_slist_find_custom_Some simp: workspace_str_cmp_def)
  from zero lookup show ?thesis by blast
qed

theorem workspace_name_cmp_zero_witness:
  "small_name ''1'' \<and> small_name ''1a'' \<and> small_name ''2'' \<and>
   workspace_name_cmp ''1'' ''1a'' = 0 \<and> workspace_name_cmp ''1'' ''2'' \<noteq> 0 \<and>
   g_slist_find_custom [a_workspace 1 ''1'' ''LVDS1''] ''1a'' workspace_str_cmp = Some 0 \<and>
   ws_name_to_number ''1'' = ws_name_to_number ''1a''"
proof -
  have a: "small_name ''1''" by (simp add: small_name_def cstring_def name_eval)
  have b: "small_name ''1a''" by (simp add: small_name_def cstring_def name_eval)
  have c: "small_name ''2''" by (simp add: small_name_def cstring_def name_eval)
  have n: "ws_name_to_number ''1'' = 1" "ws_name_to_number ''1a'' = 1" "ws_name_to_number ''2'' = 2"
    by (simp_all add: name_eval)
  have l: "g_slist_find_custom [a_workspace 1 ''1'' ''LVDS1''] ''1a'' workspace_str_cmp = Some 0"
    by (simp add: workspace_str_cmp_def name_eval)
  from workspace_name_cmp_zero [OF a b, of "[a_workspace 1 ''1'' ''LVDS1'']" 0]
    workspace_name_cmp_zero [OF a c, of "[]" 0] a b c n l
  show ?thesis by simp
qed

text \<open>
  C3 as stated fails: "1" and "1a" are distinct names that compare to 0, and the lookup of
  "1a" in a list that holds only the workspace "1" returns that workspace.
\<close>

theorem distinct_names_compare_equal_counterexample:
  "''1'' \<noteq> ''1a'' \<and> workspace_name_cmp ''1'' ''1a'' = 0 \<and>
   g_slist_find_custom [a_workspace 1 ''1'' ''LVDS1''] ''1a'' workspace_str_cmp = Some 0"
  by (simp add: name_eval workspace_str_cmp_def)

section \<open>Callback registration\<close>

text \<open>
  C7 on the code: \<open>i3wm_set_on_workspace_blurred\<close> stores the data in the slot of the
  focused callback. After the blurred callback 7 is registered with the data 42 on a new
  delegate, a focus change from "1" to "2" calls the function 7 with the data 0 (NULL), not
  with 42.
\<close>

theorem blurred_callback_gets_other_data:
  "(case on_focus_workspace
           (i3wm_set_on_workspace_blurred
              (i3wm_new\<lparr> wlist := [a_workspace 2 ''2'' ''LVDS1'', a_workspace 1 ''1'' ''LVDS1''] \<rparr>)
              (Some 7) 42)
           ''2'' ''1'' of
      Inl f \<Rightarrow> []
    | Inr s \<Rightarrow> calls s)
   = [(7, a_workspace 1 ''1'' ''LVDS1'', 0)]"
  by (simp add: on_focus_workspace_def i3wm_set_on_workspace_blurred_def handler_eval name_eval)

section \<open>Handlers without a changed workspace\<close>

text \<open>
  C2 on the code: the handlers pass a NULL error location to the query, so a failed query
  is an empty list to them and nothing is reported. \<open>on_empty_workspace\<close> on a failed query,
  with the list holding the workspace "1" and the destroyed callback 7 registered with the
  data 42: the handler returns normally, the workspace is removed and the callback called.
  The other three handlers read a pointer that the search loop never assigned.
\<close>

theorem on_empty_workspace_failed_query:
  "on_empty_workspace
     (i3wm_set_on_workspace_destroyed
        (i3wm_new\<lparr> wlist := [a_workspace 1 ''1'' ''LVDS1''] \<rparr>) (Some 7) 42)
     (Inl ''connection closed'')
   = Inr (i3wm_set_on_workspace_destroyed i3wm_new (Some 7) 42
            \<lparr> wlist := [], calls := [(7, a_workspace 1 ''1'' ''LVDS1'', 42)] \<rparr>) \<and>
   on_init_workspace i3wm (Inl e) = Inl UninitializedRead \<and>
   on_urgent_workspace i3wm (Inl e) = Inl UninitializedRead \<and>
   on_move_workspace i3wm (Inl e) = Inl UninitializedRead"
  by (simp add: on_empty_workspace_def on_init_workspace_def on_urgent_workspace_def
      on_move_workspace_def i3wm_set_on_workspace_destroyed_def handler_eval)

text \<open>
  C4 on the code: \<open>on_urgent_workspace\<close> with a query result that agrees with the list on
  every urgent flag leaves the list as it is, and calls the urgent callback with the
  workspace of the last entry of the query result.
\<close>

theorem on_urgent_workspace_without_change:
  "on_urgent_workspace
     (i3wm_set_on_workspace_urgent
        (i3wm_new\<lparr> wlist := [a_workspace 1 ''1'' ''LVDS1''] \<rparr>) (Some 7) 42)
     (Inr [a_reply 1 ''1'' ''LVDS1''])
   = Inr (i3wm_set_on_workspace_urgent i3wm_new (Some 7) 42
            \<lparr> wlist := [a_workspace 1 ''1'' ''LVDS1''],
              calls := [(7, a_workspace 1 ''1'' ''LVDS1'', 42)] \<rparr>)"
  by (simp add: on_urgent_workspace_def i3wm_set_on_workspace_urgent_def handler_eval name_eval)

text \<open>
  C5 on the code: \<open>on_init_workspace\<close> with a query result that holds no new name inserts
  a copy of the last entry of the query result and calls the created callback with it.
\<close>

theorem on_init_workspace_without_new:
  "on_init_workspace
     (i3wm_set_on_workspace_created
        (i3wm_new\<lparr> wlist := [a_workspace 1 ''1'' ''LVDS1''] \<rparr>) (Some 7) 42)
     (Inr [a_reply 1 ''1'' ''LVDS1''])
   = Inr (i3wm_set_on_workspace_created i3wm_new (Some 7) 42
            \<lparr> wlist := [a_workspace 1 ''1'' ''LVDS1'', a_workspace 1 ''1'' ''LVDS1''],
              calls := [(7, a_workspace 1 ''1'' ''LVDS1'', 42)] \<rparr>)"
  by (simp add: on_init_workspace_def i3wm_set_on_workspace_created_def handler_eval name_eval)

text \<open>
  C6 on the code: \<open>on_empty_workspace\<close> with a query result that holds the name of every
  workspace of the list removes the last workspace of the list and calls the destroyed
  callback with it.
\<close>

theorem on_empty_workspace_without_removed:
  "on_empty_workspace
     (i3wm_set_on_workspace_destroyed
        (i3wm_new\<lparr> wlist := [a_workspace 2 ''2'' ''LVDS1'', a_workspace 1 ''1'' ''LVDS1''] \<rparr>)
        (Some 7) 42)
     (Inr [a_reply 1 ''1'' ''LVDS1'', a_reply 2 ''2'' ''LVDS1''])
   = Inr (i3wm_set_on_workspace_destroyed i3wm_new (Some 7) 42
            \<lparr> wlist := [a_workspace 2 ''2'' ''LVDS1''],
              calls := [(7, a_workspace 1 ''1'' ''LVDS1'', 42)] \<rparr>)"
  by (simp add: on_empty_workspace_def i3wm_set_on_workspace_destroyed_def handler_eval name_eval)

section \<open>The focus handler\<close>
















section \<open>The move handler\<close>

lemma set_g_slist_insert_sorted: "set (g_slist_insert_sorted xs d f) = insert d (set xs)"
  by (induction xs) auto

lemma set_g_slist_remove_nth:
  "x \<in> set (g_slist_remove_nth xs i) \<Longrightarrow> \<exists>l<length xs. l \<noteq> i \<and> x = xs ! l"
proof -
  assume "x \<in> set (g_slist_remove_nth xs i)"
  then consider "x \<in> set (take i xs)" | "x \<in> set (drop (Suc i) xs)"
    by (auto simp: g_slist_remove_nth_def)
  then show ?thesis
  proof cases
    case 1
    then obtain l where "l < length (take i xs)" "take i xs ! l = x"
      by (auto simp: in_set_conv_nth)
    then have "l < length xs \<and> l \<noteq> i \<and> x = xs ! l" by auto
    then show ?thesis by blast
  next
    case 2
    then obtain l where "l < length (drop (Suc i) xs)" "drop (Suc i) xs ! l = x"
      by (auto simp: in_set_conv_nth)
    then have "Suc i + l < length xs \<and> Suc i + l \<noteq> i \<and> x = xs ! (Suc i + l)" by auto
    then show ?thesis by blast
  qed
qed

lemma move_scan_first_mismatch:
  assumes "\<forall>e\<in>set pre. \<exists>k. g_slist_find_custom ours (reply_name e) workspace_str_cmp = Some k \<and>
             strcmp (reply_output e) (output (ours ! k)) = 0"
    and "g_slist_find_custom ours (reply_name r) workspace_str_cmp = Some i"
    and "strcmp (reply_output r) (output (ours ! i)) \<noteq> 0"
  shows "move_scan ours (pre @ r # post) found = Inr (Some (i, r))"
  using assms by (induction pre arbitrary: found) auto

text \<open>
  C9, as the code has it. The list holds no two workspaces whose names compare to 0, \<open>w\<close>
  is a workspace of the list and \<open>r\<close> an entry of the query result with the name of \<open>w\<close> and
  another output, and \<open>r\<close> is where the search loop stops: every entry before it is found
  in the list with the same output. With the destroyed and the created callback
  registered, the handler makes two calls, the destroyed callback with \<open>w\<close> and then the
  created callback with the workspace made from \<open>r\<close>, both of that name, and the new
  workspace, with the output of \<open>r\<close>, is the only workspace of that name in the final list.
\<close>

theorem on_move_workspace_first_mismatch:
  assumes uniq: "\<forall>k<length (wlist i3wm). \<forall>l<length (wlist i3wm).
        workspace_name_cmp (name (wlist i3wm ! k)) (name (wlist i3wm ! l)) = 0 \<longrightarrow> k = l"
    and ours: "w \<in> set (wlist i3wm)" "name w = reply_name r"
    and differs: "output w \<noteq> reply_output r" "cstring (output w)" "cstring (reply_output r)"
    and earlier: "\<forall>e\<in>set pre. \<exists>k.
        g_slist_find_custom (wlist i3wm) (reply_name e) workspace_str_cmp = Some k \<and>
        strcmp (reply_output e) (output (wlist i3wm ! k)) = 0"
    and destroyed: "cb_function (on_workspace_destroyed i3wm) = Some fd"
    and created: "cb_function (on_workspace_created i3wm) = Some fc"
  shows "\<exists>s'. on_move_workspace i3wm (Inr (pre @ r # post)) = Inr s' \<and>
      calls s' = calls i3wm @
        [(fd, w, cb_data (on_workspace_destroyed i3wm)),
         (fc, create_workspace r, cb_data (on_workspace_created i3wm))] \<and>
      name (create_workspace r) = name w \<and>
      output (create_workspace r) = reply_output r \<and>
      create_workspace r \<in> set (wlist s') \<and>
      (\<forall>x\<in>set (wlist s'). name x = name w \<longrightarrow> x = create_workspace r)"
proof -
  let ?ours = "wlist i3wm"
  from ours(1) obtain k where k: "k < length ?ours" "?ours ! k = w"
    by (auto simp: in_set_conv_nth)
  have "\<exists>i. g_slist_find_custom ?ours (reply_name r) workspace_str_cmp = Some i"
  proof (cases "g_slist_find_custom ?ours (reply_name r) workspace_str_cmp")
    case None
    with ours show ?thesis
      by (auto simp: g_slist_find_custom_None workspace_str_cmp_def workspace_name_cmp_refl)
  qed simp
  then obtain i where i: "g_slist_find_custom ?ours (reply_name r) workspace_str_cmp = Some i" ..
  from g_slist_find_custom_Some [OF i]
  have ilen: "i < length ?ours"
    and icmp: "workspace_name_cmp (name (?ours ! i)) (reply_name r) = 0"
    by (simp_all add: workspace_str_cmp_def)
  from uniq ilen k icmp ours(2) have ik: "i = k" by auto
  with k have wi: "?ours ! i = w" by simp
  from differs strcmp_zero [of "reply_output r" "output w"]
  have ne: "strcmp (reply_output r) (output (?ours ! i)) \<noteq> 0"
    by (auto simp: wi)
  have scan: "move_scan ?ours (pre @ r # post) None = Inr (Some (i, r))"
    by (rule move_scan_first_mismatch [OF earlier i ne])
  let ?rest = "g_slist_remove_nth ?ours i"
  let ?final = "g_slist_insert_sorted ?rest (create_workspace r) i3wm_workspace_cmp"
  have only: "x = create_workspace r" if x: "x \<in> set ?final" and nx: "name x = name w" for x
  proof (rule ccontr)
    assume "x \<noteq> create_workspace r"
    with x have "x \<in> set ?rest" by (simp add: set_g_slist_insert_sorted)
    then obtain l where l: "l < length ?ours" "l \<noteq> i" "x = ?ours ! l"
      by (blast dest: set_g_slist_remove_nth)
    with nx wi have "workspace_name_cmp (name (?ours ! l)) (name (?ours ! i)) = 0"
      by (simp add: workspace_name_cmp_refl)
    with uniq l ilen show False by blast
  qed
  let ?s' = "i3wm\<lparr> wlist := ?final,
      calls := calls i3wm @
        [(fd, w, cb_data (on_workspace_destroyed i3wm)),
         (fc, create_workspace r, cb_data (on_workspace_created i3wm))] \<rparr>"
  have run: "on_move_workspace i3wm (Inr (pre @ r # post)) = Inr ?s'"
    using scan wi destroyed created
    by (simp add: on_move_workspace_def i3ipc_connection_get_workspaces_def invoke_callback_def
        Let_def)
  have "name (create_workspace r) = name w" "output (create_workspace r) = reply_output r"
    using ours(2) by (simp_all add: create_workspace_def)
  moreover have "create_workspace r \<in> set (wlist ?s')"
    by (simp add: set_g_slist_insert_sorted)
  moreover have "\<forall>x\<in>set (wlist ?s'). name x = name w \<longrightarrow> x = create_workspace r"
    using only by simp
  ultimately show ?thesis using run by simp
qed

theorem on_move_workspace_first_mismatch_witness:
  "\<exists>s'. on_move_workspace
     (i3wm_set_on_workspace_created
        (i3wm_set_on_workspace_destroyed
           (i3wm_new\<lparr> wlist := [a_workspace 2 ''2'' ''LVDS1'', a_workspace 1 ''1'' ''LVDS1''] \<rparr>)
           (Some 7) 42)
        (Some 8) 43)
     (Inr [a_reply 2 ''2'' ''LVDS1'', a_reply 1 ''1'' ''HDMI1'']) = Inr s' \<and>
   calls s' = [(7, a_workspace 1 ''1'' ''LVDS1'', 42), (8, a_workspace 1 ''1'' ''HDMI1'', 43)] \<and>
   a_workspace 1 ''1'' ''HDMI1'' \<in> set (wlist s')"
proof -
  let ?s = "i3wm_set_on_workspace_created
        (i3wm_set_on_workspace_destroyed
           (i3wm_new\<lparr> wlist := [a_workspace 2 ''2'' ''LVDS1'', a_workspace 1 ''1'' ''LVDS1''] \<rparr>)
           (Some 7) 42)
        (Some 8) 43"
  have wl: "wlist ?s = [a_workspace 2 ''2'' ''LVDS1'', a_workspace 1 ''1'' ''LVDS1'']"
    and cbd: "on_workspace_destroyed ?s = \<lparr> cb_function = Some 7, cb_data = 42 \<rparr>"
    and cbc: "on_workspace_created ?s = \<lparr> cb_function = Some 8, cb_data = 43 \<rparr>"
    and cl: "calls ?s = []"
    by (simp_all add: i3wm_set_on_workspace_created_def i3wm_set_on_workspace_destroyed_def
        i3wm_new_def)
  have uniq: "\<forall>k<length (wlist ?s). \<forall>l<length (wlist ?s).
        workspace_name_cmp (name (wlist ?s ! k)) (name (wlist ?s ! l)) = 0 \<longrightarrow> k = l"
    unfolding wl by (simp add: All_less_Suc name_eval)
  have ours: "a_workspace 1 ''1'' ''LVDS1'' \<in> set (wlist ?s)"
    "name (a_workspace 1 ''1'' ''LVDS1'') = reply_name (a_reply 1 ''1'' ''HDMI1'')"
    unfolding wl by simp_all
  have differs: "output (a_workspace 1 ''1'' ''LVDS1'') \<noteq> reply_output (a_reply 1 ''1'' ''HDMI1'')"
    "cstring (output (a_workspace 1 ''1'' ''LVDS1''))"
    "cstring (reply_output (a_reply 1 ''1'' ''HDMI1''))"
    by (simp_all add: cstring_def)
  have earlier: "\<forall>e\<in>set [a_reply 2 ''2'' ''LVDS1'']. \<exists>k.
        g_slist_find_custom (wlist ?s) (reply_name e) workspace_str_cmp = Some k \<and>
        strcmp (reply_output e) (output (wlist ?s ! k)) = 0"
    unfolding wl by (simp add: workspace_str_cmp_def name_eval)
  have d: "cb_function (on_workspace_destroyed ?s) = Some 7" by (simp add: cbd)
  have c: "cb_function (on_workspace_created ?s) = Some 8" by (simp add: cbc)
  from on_move_workspace_first_mismatch [OF uniq ours differs earlier d c, of "[]"]
  show ?thesis
    by (simp add: cbd cbc cl create_workspace_def) blast
qed

text \<open>
  C9 as stated fails where the entry is not the first one that differs: with "1" and "2"
  both on another output in the query result, the handler treats "1" only. No call carries
  the name "2", and the workspace "2" of the final list still has the output "LVDS1".
\<close>

theorem move_second_mismatch_counterexample:
  "(case on_move_workspace
           (i3wm_set_on_workspace_created
              (i3wm_set_on_workspace_destroyed
                 (i3wm_new\<lparr> wlist := [a_workspace 2 ''2'' ''LVDS1'', a_workspace 1 ''1'' ''LVDS1''] \<rparr>)
                 (Some 7) 42)
              (Some 8) 43)
           (Inr [a_reply 1 ''1'' ''HDMI1'', a_reply 2 ''2'' ''HDMI1'']) of
      Inl f \<Rightarrow> False
    | Inr s' \<Rightarrow>
        map (\<lambda>c. name (fst (snd c))) (calls s') = [''1'', ''1''] \<and>
        map output (filter (\<lambda>w. name w = ''2'') (wlist s')) = [''LVDS1''])"
  by (simp add: on_move_workspace_def i3wm_set_on_workspace_created_def
      i3wm_set_on_workspace_destroyed_def handler_eval name_eval)

section \<open>The order of the list\<close>

text \<open>
  C10 on the code: \<open>workspace_name_cmp\<close> assigns the \<open>long\<close> difference of two numbers to a
  \<open>gint\<close>. For the names "0", "2147483648" and "1073741824" the comparison is cyclic:
  \<open>init_workspaces\<close> leaves them in this order, and when "2147483648" is removed by
  \<open>on_empty_workspace\<close> the list is "0", "1073741824", whose first name compares greater
  than the second.
\<close>

theorem list_not_sorted_after_remove:
  "(case i3wm_construct None
           (Inr [a_reply 0 ''0'' ''LVDS1'', a_reply 0 ''2147483648'' ''LVDS1'',
                 a_reply 0 ''1073741824'' ''LVDS1'']) None of
      Inl e \<Rightarrow> False
    | Inr s \<Rightarrow>
        map name (wlist s) = [''0'', ''2147483648'', ''1073741824''] \<and>
        (case on_empty_workspace s
                (Inr [a_reply 0 ''0'' ''LVDS1'', a_reply 0 ''1073741824'' ''LVDS1'']) of
           Inl f \<Rightarrow> False
         | Inr s' \<Rightarrow>
             map name (wlist s') = [''0'', ''1073741824''] \<and>
             workspace_name_cmp ''0'' ''1073741824'' > 0 \<and>
             \<not> sorted_under i3wm_workspace_cmp (wlist s')))"
  by (simp add: i3wm_construct_def init_workspaces_def on_empty_workspace_def sorted_under_def
      handler_eval name_eval)

section \<open>The handlers on a changed workspace\<close>

lemma empty_scan_first_absent:
  assumes "i < length ws"
    and "g_slist_find_custom wl (name (ws ! i)) workspace_reply_str_cmp = None"
    and "\<forall>k<i. g_slist_find_custom wl (name (ws ! k)) workspace_reply_str_cmp \<noteq> None"
  shows "empty_scan wl ws n acc = Some (n + i)"
  using assms
proof (induction ws arbitrary: i n acc)
  case Nil
  then show ?case by simp
next
  case (Cons w ws)
  show ?case
  proof (cases i)
    case 0
    with Cons.prems show ?thesis by simp
  next
    case (Suc i')
    with Cons.prems have here: "g_slist_find_custom wl (name w) workspace_reply_str_cmp \<noteq> None"
      by auto
    from Suc Cons.prems have "empty_scan wl ws (Suc n) (Some n) = Some (Suc n + i')"
      by (intro Cons.IH) auto
    with here Suc show ?thesis by simp
  qed
qed

lemma init_scan_first_new:
  assumes "\<forall>e\<in>set pre. g_slist_find_custom ours (reply_name e) workspace_str_cmp \<noteq> None"
    and "g_slist_find_custom ours (reply_name r) workspace_str_cmp = None"
  shows "init_scan ours (pre @ r # post) acc = Some r"
  using assms by (induction pre arbitrary: acc) auto

lemma urgent_scan_first_mismatch:
  assumes "\<forall>e\<in>set pre. \<exists>k. g_slist_find_custom ours (reply_name e) workspace_str_cmp = Some k \<and>
             reply_urgent e = urgent (ours ! k)"
    and "g_slist_find_custom ours (reply_name r) workspace_str_cmp = Some i"
    and "reply_urgent r \<noteq> urgent (ours ! i)"
  shows "urgent_scan ours (pre @ r # post) found = Inr (Some (i, r))"
  using assms by (induction pre arbitrary: found) auto

text \<open>
  The empty handler on a removed workspace: when the workspace at \<open>i\<close> is the first of the
  list whose name is not found in the query result, \<open>on_empty_workspace\<close> removes it and
  calls the destroyed callback with it.
\<close>

theorem on_empty_workspace_removes_first_absent:
  assumes "i < length (wlist i3wm)"
    and "g_slist_find_custom wl (name (wlist i3wm ! i)) workspace_reply_str_cmp = None"
    and "\<forall>k<i. g_slist_find_custom wl (name (wlist i3wm ! k)) workspace_reply_str_cmp \<noteq> None"
    and "cb_function (on_workspace_destroyed i3wm) = Some fd"
  shows "on_empty_workspace i3wm (Inr wl) =
     Inr (i3wm\<lparr> wlist := g_slist_remove_nth (wlist i3wm) i,
                calls := calls i3wm @
                  [(fd, wlist i3wm ! i, cb_data (on_workspace_destroyed i3wm))] \<rparr>)"
  using empty_scan_first_absent [OF assms(1,2,3), of 0 None] assms(4)
  by (simp add: on_empty_workspace_def i3ipc_connection_get_workspaces_def invoke_callback_def
      Let_def)

theorem on_empty_workspace_removes_first_absent_witness:
  "on_empty_workspace
     (i3wm_set_on_workspace_destroyed
        (i3wm_new\<lparr> wlist := [a_workspace 3 ''3'' ''LVDS1'', a_workspace 2 ''2'' ''LVDS1'',
                             a_workspace 1 ''1'' ''LVDS1''] \<rparr>) (Some 7) 42)
     (Inr [a_reply 1 ''1'' ''LVDS1'', a_reply 3 ''3'' ''LVDS1''])
   = Inr (i3wm_set_on_workspace_destroyed i3wm_new (Some 7) 42
            \<lparr> wlist := [a_workspace 3 ''3'' ''LVDS1'', a_workspace 1 ''1'' ''LVDS1''],
              calls := [(7, a_workspace 2 ''2'' ''LVDS1'', 42)] \<rparr>)"
proof -
  let ?s = "i3wm_set_on_workspace_destroyed
        (i3wm_new\<lparr> wlist := [a_workspace 3 ''3'' ''LVDS1'', a_workspace 2 ''2'' ''LVDS1'',
                             a_workspace 1 ''1'' ''LVDS1''] \<rparr>) (Some 7) 42"
  let ?wl = "[a_reply 1 ''1'' ''LVDS1'', a_reply 3 ''3'' ''LVDS1'']"
  have wl: "wlist ?s = [a_workspace 3 ''3'' ''LVDS1'', a_workspace 2 ''2'' ''LVDS1'',
                             a_workspace 1 ''1'' ''LVDS1'']"
    and cb: "on_workspace_destroyed ?s = \<lparr> cb_function = Some 7, cb_data = 42 \<rparr>"
    and cl: "calls ?s = []"
    by (simp_all add: i3wm_set_on_workspace_destroyed_def i3wm_new_def)
  have 1: "1 < length (wlist ?s)" unfolding wl by simp
  have 2: "g_slist_find_custom ?wl (name (wlist ?s ! 1)) workspace_reply_str_cmp = None"
    unfolding wl by (simp add: workspace_reply_str_cmp_def name_eval)
  have 3: "\<forall>k<1. g_slist_find_custom ?wl (name (wlist ?s ! k)) workspace_reply_str_cmp \<noteq> None"
    unfolding wl by (simp add: workspace_reply_str_cmp_def name_eval)
  have 4: "cb_function (on_workspace_destroyed ?s) = Some 7" by (simp add: cb)
  from on_empty_workspace_removes_first_absent [OF 1 2 3 4] show ?thesis
    by (simp add: wl cb cl g_slist_remove_nth_def i3wm_set_on_workspace_destroyed_def i3wm_new_def)
qed

text \<open>
  The init handler on a new workspace: when \<open>r\<close> is the first entry of the query result
  whose name is not found in the list, \<open>on_init_workspace\<close> inserts the workspace made
  from it and calls the created callback with it.
\<close>

theorem on_init_workspace_inserts_first_new:
  assumes "\<forall>e\<in>set pre. g_slist_find_custom (wlist i3wm) (reply_name e) workspace_str_cmp \<noteq> None"
    and "g_slist_find_custom (wlist i3wm) (reply_name r) workspace_str_cmp = None"
    and "cb_function (on_workspace_created i3wm) = Some fc"
  shows "on_init_workspace i3wm (Inr (pre @ r # post)) =
     Inr (i3wm\<lparr> wlist := g_slist_insert_sorted (wlist i3wm) (create_workspace r)
                           i3wm_workspace_cmp,
                calls := calls i3wm @
                  [(fc, create_workspace r, cb_data (on_workspace_created i3wm))] \<rparr>)"
  using init_scan_first_new [OF assms(1,2), of post None] assms(3)
  by (simp add: on_init_workspace_def i3ipc_connection_get_workspaces_def invoke_callback_def
      Let_def)

theorem on_init_workspace_inserts_first_new_witness:
  "on_init_workspace
     (i3wm_set_on_workspace_created
        (i3wm_new\<lparr> wlist := [a_workspace 2 ''2'' ''LVDS1'', a_workspace 1 ''1'' ''LVDS1''] \<rparr>)
        (Some 7) 42)
     (Inr [a_reply 1 ''1'' ''LVDS1'', a_reply 2 ''2'' ''LVDS1'', a_reply 3 ''3'' ''LVDS1''])
   = Inr (i3wm_set_on_workspace_created i3wm_new (Some 7) 42
            \<lparr> wlist := [a_workspace 3 ''3'' ''LVDS1'', a_workspace 2 ''2'' ''LVDS1'',
                        a_workspace 1 ''1'' ''LVDS1''],
              calls := [(7, a_workspace 3 ''3'' ''LVDS1'', 42)] \<rparr>)"
proof -
  let ?s = "i3wm_set_on_workspace_created
        (i3wm_new\<lparr> wlist := [a_workspace 2 ''2'' ''LVDS1'', a_workspace 1 ''1'' ''LVDS1''] \<rparr>)
        (Some 7) 42"
  have wl: "wlist ?s = [a_workspace 2 ''2'' ''LVDS1'', a_workspace 1 ''1'' ''LVDS1'']"
    and cb: "on_workspace_created ?s = \<lparr> cb_function = Some 7, cb_data = 42 \<rparr>"
    and cl: "calls ?s = []"
    by (simp_all add: i3wm_set_on_workspace_created_def i3wm_new_def)
  have 1: "\<forall>e\<in>set [a_reply 1 ''1'' ''LVDS1'', a_reply 2 ''2'' ''LVDS1''].
      g_slist_find_custom (wlist ?s) (reply_name e) workspace_str_cmp \<noteq> None"
    unfolding wl by (simp add: workspace_str_cmp_def name_eval)
  have 2: "g_slist_find_custom (wlist ?s) (reply_name (a_reply 3 ''3'' ''LVDS1''))
      workspace_str_cmp = None"
    unfolding wl by (simp add: workspace_str_cmp_def name_eval)
  have 3: "cb_function (on_workspace_created ?s) = Some 7" by (simp add: cb)
  from on_init_workspace_inserts_first_new [OF 1 2 3, of "[]"] show ?thesis
    by (simp add: wl cb cl create_workspace_def i3wm_workspace_cmp_def name_eval
        i3wm_set_on_workspace_created_def i3wm_new_def)
qed

text \<open>
  The urgent handler on a changed flag: when \<open>r\<close> is the first entry of the query result
  whose urgent flag differs from that of the workspace found for its name, at \<open>i\<close>, and
  every entry before it is found with the same flag, \<open>on_urgent_workspace\<close> copies the flag
  to the workspace at \<open>i\<close> and calls the urgent callback with it.
\<close>

theorem on_urgent_workspace_first_mismatch:
  assumes "\<forall>e\<in>set pre. \<exists>k.
        g_slist_find_custom (wlist i3wm) (reply_name e) workspace_str_cmp = Some k \<and>
        reply_urgent e = urgent (wlist i3wm ! k)"
    and "g_slist_find_custom (wlist i3wm) (reply_name r) workspace_str_cmp = Some i"
    and "reply_urgent r \<noteq> urgent (wlist i3wm ! i)"
    and "cb_function (on_workspace_urgent i3wm) = Some fu"
  shows "on_urgent_workspace i3wm (Inr (pre @ r # post)) =
     Inr (i3wm\<lparr> wlist := (wlist i3wm)[i := (wlist i3wm ! i)\<lparr> urgent := reply_urgent r \<rparr>],
                calls := calls i3wm @
                  [(fu, (wlist i3wm ! i)\<lparr> urgent := reply_urgent r \<rparr>,
                    cb_data (on_workspace_urgent i3wm))] \<rparr>)"
  using urgent_scan_first_mismatch [OF assms(1,2,3), of post None] assms(4)
  by (simp add: on_urgent_workspace_def i3ipc_connection_get_workspaces_def invoke_callback_def
      Let_def)

theorem on_urgent_workspace_first_mismatch_witness:
  "on_urgent_workspace
     (i3wm_set_on_workspace_urgent
        (i3wm_new\<lparr> wlist := [a_workspace 2 ''2'' ''LVDS1'', a_workspace 1 ''1'' ''LVDS1''] \<rparr>)
        (Some 7) 42)
     (Inr [a_reply 1 ''1'' ''LVDS1'', (a_reply 2 ''2'' ''LVDS1'')\<lparr> reply_urgent := True \<rparr>])
   = Inr (i3wm_set_on_workspace_urgent i3wm_new (Some 7) 42
            \<lparr> wlist := [(a_workspace 2 ''2'' ''LVDS1'')\<lparr> urgent := True \<rparr>,
                        a_workspace 1 ''1'' ''LVDS1''],
              calls := [(7, (a_workspace 2 ''2'' ''LVDS1'')\<lparr> urgent := True \<rparr>, 42)] \<rparr>)"
proof -
  let ?s = "i3wm_set_on_workspace_urgent
        (i3wm_new\<lparr> wlist := [a_workspace 2 ''2'' ''LVDS1'', a_workspace 1 ''1'' ''LVDS1''] \<rparr>)
        (Some 7) 42"
  let ?r = "(a_reply 2 ''2'' ''LVDS1'')\<lparr> reply_urgent := True \<rparr>"
  have wl: "wlist ?s = [a_workspace 2 ''2'' ''LVDS1'', a_workspace 1 ''1'' ''LVDS1'']"
    and cb: "on_workspace_urgent ?s = \<lparr> cb_function = Some 7, cb_data = 42 \<rparr>"
    and cl: "calls ?s = []"
    by (simp_all add: i3wm_set_on_workspace_urgent_def i3wm_new_def)
  have 1: "\<forall>e\<in>set [a_reply 1 ''1'' ''LVDS1'']. \<exists>k.
        g_slist_find_custom (wlist ?s) (reply_name e) workspace_str_cmp = Some k \<and>
        reply_urgent e = urgent (wlist ?s ! k)"
    unfolding wl by (simp add: workspace_str_cmp_def name_eval)
  have 2: "g_slist_find_custom (wlist ?s) (reply_name ?r) workspace_str_cmp = Some 0"
    unfolding wl by (simp add: workspace_str_cmp_def name_eval)
  have 3: "reply_urgent ?r \<noteq> urgent (wlist ?s ! 0)"
    unfolding wl by simp
  have 4: "cb_function (on_workspace_urgent ?s) = Some 7" by (simp add: cb)
  from on_urgent_workspace_first_mismatch [OF 1 2 3 4, of "[]"] show ?thesis
    by (simp add: wl cb cl i3wm_set_on_workspace_urgent_def i3wm_new_def)
qed

section \<open>Sortedness of the list when the numbers are small\<close>

lemma strcmp_swap: "strcmp a b = - strcmp b a"
  by (induction a b rule: strcmp.induct) auto

lemma strcmp_trans:
  "cstring a \<Longrightarrow> cstring b \<Longrightarrow> cstring c \<Longrightarrow> strcmp a b \<le> 0 \<Longrightarrow> strcmp b c \<le> 0
     \<Longrightarrow> strcmp a c \<le> 0"
proof (induction a arbitrary: b c)
  case Nil
  then show ?case by (cases c) auto
next
  case (Cons x xs)
  show ?case
  proof (cases b)
    case Nil
    with Cons.prems show ?thesis by (auto simp: cstring_def dest: of_char_zero)
  next
    case b: (Cons y ys)
    show ?thesis
    proof (cases c)
      case Nil
      with Cons.prems b show ?thesis by (auto simp: cstring_def dest: of_char_zero)
    next
      case c: (Cons z zs)
      have inj: "\<And>u v :: char. (of_char u :: nat) = of_char v \<Longrightarrow> u = v" by simp
      from Cons.prems b c Cons.IH [of ys zs] show ?thesis
        by (auto simp: cstring_def split: if_splits dest: inj)
    qed
  qed
qed


lemma set_g_slist_sort_merge: "set (g_slist_sort_merge xs ys f) = set xs \<union> set ys"
  by (induction xs ys f rule: g_slist_sort_merge.induct) auto

lemma set_g_slist_sort: "set (g_slist_sort xs f) = set xs"
proof (induction xs f rule: g_slist_sort.induct)
  case (3 x y zs f)
  let ?l = "x # y # zs"
  have "set (take (length ?l div 2) ?l) \<union> set (drop (length ?l div 2) ?l) = set ?l"
    by (metis append_take_drop_id set_append)
  with 3 show ?case by (simp only: g_slist_sort.simps set_g_slist_sort_merge)
qed simp_all

lemma sorted_g_slist_sort_merge:
  assumes "\<forall>a b. A a \<longrightarrow> A b \<longrightarrow> \<not> f a b \<le> 0 \<longrightarrow> f b a \<le> 0"
    and "\<forall>a b c. A a \<longrightarrow> A b \<longrightarrow> A c \<longrightarrow> f a b \<le> 0 \<longrightarrow> f b c \<le> 0 \<longrightarrow> f a c \<le> 0"
    and "list_all A xs" and "list_all A ys"
    and "sorted_under f xs" and "sorted_under f ys"
  shows "sorted_under f (g_slist_sort_merge xs ys f)"
  using assms
proof (induction xs ys f rule: g_slist_sort_merge.induct)
  case (1 l2 f)
  from "1.prems"(6) show ?case by simp
next
  case (2 x xs f)
  from "2.prems"(5) show ?case by simp
next
  case (3 x xs y ys f)
  note tot = "3.prems"(1) and trans = "3.prems"(2)
  from "3.prems"(3,4) have A: "A x" "A y" and Axs: "list_all A xs" and Ays: "list_all A ys"
    by simp_all
  note sx = "3.prems"(5) and sy = "3.prems"(6)
  from sx have sxs: "sorted_under f xs" and xle: "\<forall>z\<in>set xs. f x z \<le> 0"
    by (simp_all add: sorted_under_def)
  from sy have sys: "sorted_under f ys" and yle: "\<forall>z\<in>set ys. f y z \<le> 0"
    by (simp_all add: sorted_under_def)
  show ?case
  proof (cases "f x y \<le> 0")
    case True
    have "f x z \<le> 0" if "z \<in> set ys" for z
    proof -
      from that Ays yle have "A z" "f y z \<le> 0" by (simp_all add: list_all_iff)
      with True A trans show ?thesis by blast
    qed
    with xle True have all: "\<forall>z\<in>set (g_slist_sort_merge xs (y # ys) f). f x z \<le> 0"
      by (auto simp: set_g_slist_sort_merge)
    have "sorted_under f (g_slist_sort_merge xs (y # ys) f)"
      by (rule "3.IH"(1) [OF True tot trans Axs "3.prems"(4) sxs sy])
    with all True show ?thesis by (simp add: sorted_under_def)
  next
    case False
    with A tot have yx: "f y x \<le> 0" by blast
    have "f y z \<le> 0" if "z \<in> set xs" for z
    proof -
      from that Axs xle have "A z" "f x z \<le> 0" by (simp_all add: list_all_iff)
      with yx A trans show ?thesis by blast
    qed
    with yle yx have all: "\<forall>z\<in>set (g_slist_sort_merge (x # xs) ys f). f y z \<le> 0"
      by (auto simp: set_g_slist_sort_merge)
    have "sorted_under f (g_slist_sort_merge (x # xs) ys f)"
      by (rule "3.IH"(2) [OF False tot trans "3.prems"(3) Ays sx sys])
    with all False show ?thesis by (simp add: sorted_under_def)
  qed
qed

lemma sorted_g_slist_sort:
  assumes "\<forall>a b. A a \<longrightarrow> A b \<longrightarrow> \<not> f a b \<le> 0 \<longrightarrow> f b a \<le> 0"
    and "\<forall>a b c. A a \<longrightarrow> A b \<longrightarrow> A c \<longrightarrow> f a b \<le> 0 \<longrightarrow> f b c \<le> 0 \<longrightarrow> f a c \<le> 0"
    and "list_all A xs"
  shows "sorted_under f (g_slist_sort xs f)"
  using assms
proof (induction xs f rule: g_slist_sort.induct)
  case (1 f)
  show ?case by (simp add: sorted_under_def)
next
  case (2 x f)
  show ?case by (simp add: sorted_under_def)
next
  case (3 x y zs f)
  let ?l = "x # y # zs"
  let ?n = "length ?l div 2"
  note tot = "3.prems"(1) and trans = "3.prems"(2)
  have At: "list_all A (take ?n ?l)"
    unfolding list_all_iff
    using set_take_subset [of ?n ?l] "3.prems"(3) [unfolded list_all_iff] by blast
  have Ad: "list_all A (drop ?n ?l)"
    unfolding list_all_iff
    using set_drop_subset [of ?n ?l] "3.prems"(3) [unfolded list_all_iff] by blast
  have st: "sorted_under f (g_slist_sort (take ?n ?l) f)"
    by (rule "3.IH"(1) [OF tot trans At])
  have sd: "sorted_under f (g_slist_sort (drop ?n ?l) f)"
    by (rule "3.IH"(2) [OF tot trans Ad])
  from At have At': "list_all A (g_slist_sort (take ?n ?l) f)"
    by (simp only: list_all_iff set_g_slist_sort)
  from Ad have Ad': "list_all A (g_slist_sort (drop ?n ?l) f)"
    by (simp only: list_all_iff set_g_slist_sort)
  show ?case
    by (simp only: g_slist_sort.simps) (rule sorted_g_slist_sort_merge [OF tot trans At' Ad' st sd])
qed

lemma sorted_g_slist_insert_sorted:
  assumes "\<forall>a b. A a \<longrightarrow> A b \<longrightarrow> \<not> f a b \<le> 0 \<longrightarrow> f b a \<le> 0"
    and "\<forall>a b c. A a \<longrightarrow> A b \<longrightarrow> A c \<longrightarrow> f a b \<le> 0 \<longrightarrow> f b c \<le> 0 \<longrightarrow> f a c \<le> 0"
    and "list_all A xs" and "A d" and "sorted_under f xs"
  shows "sorted_under f (g_slist_insert_sorted xs d f)"
  using assms(3,5)
proof (induction xs)
  case Nil
  show ?case by (simp add: sorted_under_def)
next
  case (Cons x xs)
  note tot = assms(1) and trans = assms(2) and Ad = assms(4)
  from Cons.prems(1) have Ax: "A x" and Axs: "list_all A xs" by simp_all
  from Cons.prems(2) have sxs: "sorted_under f xs" and xle: "\<forall>z\<in>set xs. f x z \<le> 0"
    by (simp_all add: sorted_under_def)
  show ?case
  proof (cases "f d x > 0")
    case True
    then have "\<not> f d x \<le> 0" by simp
    with Ax Ad tot have xd: "f x d \<le> 0" by blast
    have "sorted_under f (g_slist_insert_sorted xs d f)"
      by (rule Cons.IH [OF Axs sxs])
    with True xd xle show ?thesis
      by (simp add: sorted_under_def set_g_slist_insert_sorted)
  next
    case False
    then have dx: "f d x \<le> 0" by simp
    have "f d z \<le> 0" if "z \<in> set xs" for z
    proof -
      from that Axs xle have "A z" "f x z \<le> 0" by (simp_all add: list_all_iff)
      with dx Ax Ad trans show ?thesis by blast
    qed
    with False dx Cons.prems(2) show ?thesis by (simp add: sorted_under_def)
  qed
qed

lemma sorted_g_slist_remove_nth:
  assumes "sorted_under f xs"
  shows "sorted_under f (g_slist_remove_nth xs i)"
proof -
  let ?P = "\<lambda>a b. f a b \<le> 0"
  from assms have whole: "sorted_wrt ?P (take i xs @ drop i xs)"
    by (simp add: sorted_under_def)
  from assms have "sorted_wrt ?P (take i xs)" "sorted_wrt ?P (drop (Suc i) xs)"
    by (simp_all add: sorted_under_def)
  moreover have "?P x y" if "x \<in> set (take i xs)" "y \<in> set (drop (Suc i) xs)" for x y
  proof -
    have "set (drop (Suc i) xs) \<subseteq> set (drop i xs)"
      by (rule set_drop_subset_set_drop) simp
    with that have "y \<in> set (drop i xs)" by blast
    with whole that(1) show ?thesis unfolding sorted_wrt_append by blast
  qed
  ultimately have "sorted_wrt ?P (take i xs @ drop (Suc i) xs)"
    unfolding sorted_wrt_append by blast
  then show ?thesis by (simp add: sorted_under_def g_slist_remove_nth_def)
qed


lemma workspace_name_cmp_le_iff:
  assumes "small_name a" and "small_name b"
  shows "workspace_name_cmp a b \<le> 0 \<longleftrightarrow>
     (if ws_name_to_number a = - 1 then ws_name_to_number b \<noteq> - 1 \<or> strcmp b a \<le> 0
      else ws_name_to_number b \<noteq> - 1 \<and> ws_name_to_number b \<le> ws_name_to_number a)"
proof -
  from assms have "ws_name_to_number a < 2 ^ 31" "ws_name_to_number b < 2 ^ 31"
    by (simp_all add: small_name_def)
  moreover have "ws_name_to_number a \<noteq> - 1 \<Longrightarrow> ws_name_to_number b \<noteq> - 1 \<Longrightarrow>
      long_to_gint (ws_name_to_number b - ws_name_to_number a)
        = ws_name_to_number b - ws_name_to_number a"
    using calculation ws_name_to_number_range [of a] ws_name_to_number_range [of b]
    by (intro long_to_gint_small) auto
  ultimately show ?thesis
    by (auto simp: workspace_name_cmp_def Let_def)
qed

lemma i3wm_workspace_cmp_total:
  "\<forall>a b. small_name (name a) \<longrightarrow> small_name (name b) \<longrightarrow>
     \<not> i3wm_workspace_cmp a b \<le> 0 \<longrightarrow> i3wm_workspace_cmp b a \<le> 0"
proof (intro allI impI)
  fix a b :: i3workspace
  assume a: "small_name (name a)" and b: "small_name (name b)"
    and n: "\<not> i3wm_workspace_cmp a b \<le> 0"
  from n show "i3wm_workspace_cmp b a \<le> 0"
    unfolding i3wm_workspace_cmp_def workspace_name_cmp_le_iff [OF a b]
      workspace_name_cmp_le_iff [OF b a]
    using strcmp_swap [of "name a" "name b"] by (auto split: if_splits)
qed

lemma i3wm_workspace_cmp_trans:
  "\<forall>a b c. small_name (name a) \<longrightarrow> small_name (name b) \<longrightarrow> small_name (name c) \<longrightarrow>
     i3wm_workspace_cmp a b \<le> 0 \<longrightarrow> i3wm_workspace_cmp b c \<le> 0 \<longrightarrow> i3wm_workspace_cmp a c \<le> 0"
proof (intro allI impI)
  fix a b c :: i3workspace
  assume a: "small_name (name a)" and b: "small_name (name b)" and c: "small_name (name c)"
    and ab: "i3wm_workspace_cmp a b \<le> 0" and bc: "i3wm_workspace_cmp b c \<le> 0"
  from a b c have cs: "cstring (name a)" "cstring (name b)" "cstring (name c)"
    by (simp_all add: small_name_def)
  from ab bc show "i3wm_workspace_cmp a c \<le> 0"
    unfolding i3wm_workspace_cmp_def workspace_name_cmp_le_iff [OF a b]
      workspace_name_cmp_le_iff [OF b c] workspace_name_cmp_le_iff [OF a c]
    using strcmp_trans [OF cs(3) cs(2) cs(1)] by (auto split: if_splits)
qed


lemma list_ok_names:
  "list_ok xs \<longleftrightarrow> list_all small_name (map name xs) \<and>
     sorted_wrt (\<lambda>a b. workspace_name_cmp a b \<le> 0) (map name xs)"
  by (simp add: list_ok_def sorted_under_def i3wm_workspace_cmp_def sorted_wrt_map list_all_iff)

lemma list_ok_update:
  assumes "list_ok xs" and "i < length xs" and "name w = name (xs ! i)"
  shows "list_ok (xs[i := w])"
proof -
  from assms(2,3) have "map name (xs[i := w]) = map name xs"
    by (simp add: map_update list_update_same_conv)
  with assms(1) show ?thesis by (simp add: list_ok_names)
qed

lemma list_ok_insert:
  assumes "list_ok xs" and "small_name (name d)"
  shows "list_ok (g_slist_insert_sorted xs d i3wm_workspace_cmp)"
proof -
  from assms(1) have A: "list_all (\<lambda>w. small_name (name w)) xs"
    and s: "sorted_under i3wm_workspace_cmp xs" by (simp_all add: list_ok_def)
  have "sorted_under i3wm_workspace_cmp (g_slist_insert_sorted xs d i3wm_workspace_cmp)"
    by (rule sorted_g_slist_insert_sorted
        [OF i3wm_workspace_cmp_total i3wm_workspace_cmp_trans A assms(2) s])
  with A assms(2) show ?thesis
    by (simp add: list_ok_def list_all_iff set_g_slist_insert_sorted)
qed

lemma list_ok_remove:
  assumes "list_ok xs"
  shows "list_ok (g_slist_remove_nth xs i)"
proof -
  from assms have "sorted_under i3wm_workspace_cmp (g_slist_remove_nth xs i)"
    by (simp add: list_ok_def sorted_g_slist_remove_nth)
  moreover from assms have "list_all (\<lambda>w. small_name (name w)) (g_slist_remove_nth xs i)"
    by (auto simp: list_ok_def list_all_iff g_slist_remove_nth_def
        dest: in_set_takeD in_set_dropD)
  ultimately show ?thesis by (simp add: list_ok_def)
qed

lemma list_ok_sort:
  assumes "list_all (\<lambda>w. small_name (name w)) xs"
  shows "list_ok (g_slist_sort xs i3wm_workspace_cmp)"
proof -
  have "sorted_under i3wm_workspace_cmp (g_slist_sort xs i3wm_workspace_cmp)"
    by (rule sorted_g_slist_sort [OF i3wm_workspace_cmp_total i3wm_workspace_cmp_trans assms])
  with assms show ?thesis by (simp add: list_ok_def list_all_iff set_g_slist_sort)
qed

lemma set_prepended:
  "set (foldl (\<lambda>acc wreply. create_workspace wreply # acc) init wl)
     = set init \<union> create_workspace ` set wl"
  by (induction wl arbitrary: init) auto

lemma init_scan_in: "init_scan ours wl acc = Some r \<Longrightarrow> acc = Some r \<or> r \<in> set wl"
  by (induction wl arbitrary: acc) (auto split: if_splits)

lemma urgent_scan_in:
  "urgent_scan ours wl acc = Inr (Some (i, r)) \<Longrightarrow>
     acc = Some (i, r) \<or> (i < length ours \<and> r \<in> set wl)"
  by (induction wl arbitrary: acc)
    (auto split: if_splits option.splits dest: g_slist_find_custom_Some)

lemma move_scan_in:
  "move_scan ours wl acc = Inr (Some (i, r)) \<Longrightarrow>
     acc = Some (i, r) \<or> (i < length ours \<and> r \<in> set wl)"
  by (induction wl arbitrary: acc)
    (auto split: if_splits option.splits dest: g_slist_find_custom_Some)

lemma small_created:
  "list_all (\<lambda>r. small_name (reply_name r)) wl \<Longrightarrow> r \<in> set wl
     \<Longrightarrow> small_name (name (create_workspace r))"
  by (simp add: list_all_iff create_workspace_def)

lemma invoke_callback_wlist: "wlist (invoke_callback cb w s) = wlist s"
  by (simp add: invoke_callback_def split: option.splits)

lemma init_workspaces_ok:
  assumes "list_ok (wlist i3wm)" and "list_all (\<lambda>r. small_name (reply_name r)) wl"
  shows "\<exists>s. init_workspaces i3wm (Inr wl) = Inr s \<and> list_ok (wlist s)"
proof -
  let ?pre = "foldl (\<lambda>acc wreply. create_workspace wreply # acc) (wlist i3wm) wl"
  have "small_name (name w)" if "w \<in> set ?pre" for w
  proof -
    from that consider "w \<in> set (wlist i3wm)" | r where "r \<in> set wl" "w = create_workspace r"
      unfolding set_prepended by blast
    then show ?thesis
    proof cases
      case 1
      with assms(1) show ?thesis by (simp add: list_ok_def list_all_iff)
    next
      case 2
      with assms(2) show ?thesis by (simp add: small_created)
    qed
  qed
  then have "list_all (\<lambda>w. small_name (name w)) (rev ?pre)"
    by (simp add: list_all_iff)
  then have "list_ok (g_slist_sort (rev ?pre) i3wm_workspace_cmp)" by (rule list_ok_sort)
  then show ?thesis
    by (simp add: init_workspaces_def i3ipc_connection_get_workspaces_def)
qed

lemma on_init_workspace_ok:
  assumes "list_ok (wlist i3wm)" and "list_all (\<lambda>r. small_name (reply_name r)) wl"
    and "on_init_workspace i3wm (Inr wl) = Inr s"
  shows "list_ok (wlist s)"
proof -
  from assms(3) obtain r where r: "init_scan (wlist i3wm) wl None = Some r"
    and s: "wlist s = g_slist_insert_sorted (wlist i3wm) (create_workspace r) i3wm_workspace_cmp"
    by (auto simp: on_init_workspace_def i3ipc_connection_get_workspaces_def Let_def
        invoke_callback_wlist split: option.splits)
  from init_scan_in [OF r] have "r \<in> set wl" by simp
  with assms(2) have "small_name (name (create_workspace r))" by (rule small_created)
  with assms(1) show ?thesis unfolding s by (rule list_ok_insert)
qed

lemma on_empty_workspace_ok:
  assumes "list_ok (wlist i3wm)" and "on_empty_workspace i3wm answer = Inr s"
  shows "list_ok (wlist s)"
proof -
  from assms(2) obtain i where "wlist s = g_slist_remove_nth (wlist i3wm) i"
    by (auto simp: on_empty_workspace_def Let_def invoke_callback_wlist split: option.splits)
  with assms(1) show ?thesis by (simp add: list_ok_remove)
qed

lemma on_urgent_workspace_ok:
  assumes "list_ok (wlist i3wm)" and "on_urgent_workspace i3wm answer = Inr s"
  shows "list_ok (wlist s)"
proof -
  let ?wl = "fst (i3ipc_connection_get_workspaces answer)"
  from assms(2) obtain i r where scan: "urgent_scan (wlist i3wm) ?wl None = Inr (Some (i, r))"
    and s: "wlist s = (wlist i3wm)[i := (wlist i3wm ! i)\<lparr> urgent := reply_urgent r \<rparr>]"
    by (auto simp: on_urgent_workspace_def Let_def invoke_callback_wlist
        split: option.splits sum.splits)
  from urgent_scan_in [OF scan] have "i < length (wlist i3wm)" by simp
  with assms(1) show ?thesis unfolding s by (intro list_ok_update) simp_all
qed

lemma on_move_workspace_ok:
  assumes "list_ok (wlist i3wm)" and "list_all (\<lambda>r. small_name (reply_name r)) wl"
    and "on_move_workspace i3wm (Inr wl) = Inr s"
  shows "list_ok (wlist s)"
proof -
  from assms(3) obtain i r where scan: "move_scan (wlist i3wm) wl None = Inr (Some (i, r))"
    and s: "wlist s = g_slist_insert_sorted (g_slist_remove_nth (wlist i3wm) i)
        (create_workspace r) i3wm_workspace_cmp"
    by (auto simp: on_move_workspace_def i3ipc_connection_get_workspaces_def Let_def
        invoke_callback_wlist split: option.splits sum.splits)
  from move_scan_in [OF scan] have "r \<in> set wl" by simp
  with assms(2) have "small_name (name (create_workspace r))" by (rule small_created)
  with assms(1) show ?thesis unfolding s by (intro list_ok_insert list_ok_remove)
qed

lemma on_focus_workspace_ok:
  assumes "list_ok (wlist i3wm)" and "on_focus_workspace i3wm cur old = Inr s"
  shows "list_ok (wlist s)"
proof -
  define s1 where "s1 =
    (case g_slist_find_custom (wlist i3wm) old workspace_str_cmp of
       None \<Rightarrow> i3wm
     | Some i \<Rightarrow>
         invoke_callback (on_workspace_blurred i3wm) ((wlist i3wm ! i)\<lparr> focused := False \<rparr>)
           (i3wm\<lparr> wlist := (wlist i3wm)[i := (wlist i3wm ! i)\<lparr> focused := False \<rparr>] \<rparr>))"
  have ok1: "list_ok (wlist s1)"
  proof (cases "g_slist_find_custom (wlist i3wm) old workspace_str_cmp")
    case None
    with assms(1) show ?thesis by (simp add: s1_def)
  next
    case (Some i)
    from g_slist_find_custom_Some [OF Some] have "i < length (wlist i3wm)" by simp
    with assms(1) have "list_ok ((wlist i3wm)[i := (wlist i3wm ! i)\<lparr> focused := False \<rparr>])"
      by (intro list_ok_update) simp_all
    with Some show ?thesis by (simp add: s1_def invoke_callback_wlist)
  qed
  from assms(2) obtain j where j: "g_slist_find_custom (wlist s1) cur workspace_str_cmp = Some j"
    and s: "wlist s = (wlist s1)[j := (wlist s1 ! j)\<lparr> focused := True \<rparr>]"
    by (auto simp: on_focus_workspace_def Let_def s1_def invoke_callback_wlist
        split: option.splits)
  from g_slist_find_custom_Some [OF j] have "j < length (wlist s1)" by simp
  with ok1 show ?thesis unfolding s by (intro list_ok_update) simp_all
qed

text \<open>
  With every number below \<open>2 ^ 31\<close> the comparison is a total preorder, and the list stays
  sorted: \<open>init_workspaces\<close> succeeds with a sorted list, and every handler that returns
  leaves a sorted list of such names.
\<close>

theorem list_ok_preserved:
  assumes "list_ok (wlist i3wm)" and "list_all (\<lambda>r. small_name (reply_name r)) wl"
  shows "(\<exists>s. init_workspaces i3wm (Inr wl) = Inr s \<and> list_ok (wlist s)) \<and>
    (\<forall>s. on_init_workspace i3wm (Inr wl) = Inr s \<longrightarrow> list_ok (wlist s)) \<and>
    (\<forall>s. on_empty_workspace i3wm (Inr wl) = Inr s \<longrightarrow> list_ok (wlist s)) \<and>
    (\<forall>s. on_urgent_workspace i3wm (Inr wl) = Inr s \<longrightarrow> list_ok (wlist s)) \<and>
    (\<forall>s. on_move_workspace i3wm (Inr wl) = Inr s \<longrightarrow> list_ok (wlist s)) \<and>
    (\<forall>s. on_focus_workspace i3wm cur old = Inr s \<longrightarrow> list_ok (wlist s))"
  using init_workspaces_ok [OF assms] on_init_workspace_ok [OF assms]
    on_empty_workspace_ok [OF assms(1)] on_urgent_workspace_ok [OF assms(1)]
    on_move_workspace_ok [OF assms] on_focus_workspace_ok [OF assms(1)]
  by blast

theorem list_ok_preserved_witness:
  "\<exists>s. init_workspaces i3wm_new
          (Inr [a_reply 1 ''1'' ''LVDS1'', a_reply 2 ''2'' ''LVDS1'', a_reply 10 ''10'' ''LVDS1'',
                a_reply (- 1) ''a'' ''LVDS1'', a_reply (- 1) ''b'' ''LVDS1'']) = Inr s \<and>
        list_ok (wlist s)"
proof -
  have a: "list_ok (wlist i3wm_new)"
    by (simp add: list_ok_def sorted_under_def i3wm_new_def)
  have b: "list_all (\<lambda>r. small_name (reply_name r))
      [a_reply 1 ''1'' ''LVDS1'', a_reply 2 ''2'' ''LVDS1'', a_reply 10 ''10'' ''LVDS1'',
       a_reply (- 1) ''a'' ''LVDS1'', a_reply (- 1) ''b'' ''LVDS1'']"
    by (simp add: small_name_def cstring_def name_eval)
  from list_ok_preserved [OF a b] show ?thesis by blast
qed

end
